theory Spec2Isabelle
  imports Main
begin

section \<open>Data model (polls/models.py)\<close>

text \<open>
  A point in time is an integer (a count of clock ticks); \<open>timezone.now()\<close> is a
  parameter of every operation that reads the clock. Identifiers and the vote counter are
  Python integers.
\<close>

type_synonym datetime = int

text \<open>
  \<^verbatim>\<open>class Question(models.Model)\<close>: the automatic primary key \<open>id\<close> and the four
  declared fields.
\<close>

record question =
  q_id :: int
  question_text :: string
  pub_date :: datetime
  q_created_at :: datetime
  q_updated_at :: datetime

text \<open>
  \<^verbatim>\<open>class Choice(models.Model)\<close>: the foreign key \<open>question\<close> is stored as the
  identifier of the owning Question.
\<close>

record choice =
  c_id :: int
  c_question_id :: int
  choice_text :: string
  votes :: int
  c_created_at :: datetime
  c_updated_at :: datetime

text \<open>
  The relational store: one table per model, each a list of rows in insertion order.
\<close>

record store =
  polls_question :: "question list"
  polls_choice :: "choice list"

text \<open>The primary-key constraint of both tables.\<close>

definition unique_pks :: "store \<Rightarrow> bool" where
  "unique_pks db \<longleftrightarrow>
     distinct (map q_id (polls_question db)) \<and> distinct (map c_id (polls_choice db))"

text \<open>
  The project's settings are not among the sources. The store is taken to be SQLite, the
  framework's default database: an integer bound to a statement has to be a 64-bit signed
  value, and binding any other integer raises \<open>OverflowError\<close> before a row is read
  or written.
\<close>

definition in_db_range :: "int \<Rightarrow> bool" where
  "in_db_range i \<longleftrightarrow> - (2 ^ 63) \<le> i \<and> i < 2 ^ 63"

text \<open>Every stored primary key is a value of the store's integer type.\<close>

definition pks_in_range :: "store \<Rightarrow> bool" where
  "pks_in_range db \<longleftrightarrow>
     list_all (\<lambda>q. in_db_range (q_id q)) (polls_question db) \<and>
     list_all (\<lambda>c. in_db_range (c_id c)) (polls_choice db)"

subsection \<open>Exceptions\<close>

text \<open>
  The exceptions of the program: \<open>Http404\<close>, raised by the views and answered by the
  framework with status 404; \<open>DoesNotExist\<close>, raised by \<open>.get\<close> when no row matches;
  \<open>ValueError\<close>, raised by a primary-key lookup on a text that is not a number;
  \<open>OverflowError\<close>, raised when an integer outside the store's range is bound. An
  exception other than \<open>Http404\<close> that leaves a view is answered with status 500.
\<close>

datatype error = Http404 string | DoesNotExist | ValueError | OverflowError

subsection \<open>The managers\<close>

text \<open>
  \<^verbatim>\<open>QuestionManager.get_queryset\<close>:
  \<^verbatim>\<open>super().get_queryset().filter(pub_date__lte=timezone.now())\<close>.
  \<open>Question.objects\<close> is this manager, so every query written \<open>Question.objects. ...\<close>
  starts from this queryset.
\<close>

definition get_queryset :: "datetime \<Rightarrow> store \<Rightarrow> question list" where
  "get_queryset now db = filter (\<lambda>q. pub_date q \<le> now) (polls_question db)"

text \<open>
  \<^verbatim>\<open>.order_by('-pub_date')\<close>: descending by \<open>pub_date\<close>. Rows with equal dates keep
  their table order (the database leaves their order open).
\<close>

definition order_by_pub_date_desc :: "question list \<Rightarrow> question list" where
  "order_by_pub_date_desc qs = sort_key (\<lambda>q. - pub_date q) qs"

text \<open>
  \<^verbatim>\<open>.get(pk=...)\<close> on a queryset of Questions. The key is bound to the query, which
  raises \<open>OverflowError\<close> for a key outside the store's range; otherwise the row with
  that key is returned, or \<open>Question.DoesNotExist\<close> is raised when there is none. The
  primary key is unique, so at most one row matches.
\<close>

definition Question_get :: "question list \<Rightarrow> int \<Rightarrow> error + question" where
  "Question_get qs pk =
     (if in_db_range pk
      then (case List.find (\<lambda>q. q_id q = pk) qs of
              None \<Rightarrow> Inl DoesNotExist
            | Some q \<Rightarrow> Inr q)
      else Inl OverflowError)"

text \<open>
  \<^verbatim>\<open>question.question_choices\<close>: the related manager of the foreign key, the Choices
  whose \<open>question\<close> is this Question. Choice has the default manager, which filters nothing.
\<close>

definition question_choices :: "store \<Rightarrow> question \<Rightarrow> choice list" where
  "question_choices db question =
     filter (\<lambda>c. c_question_id c = q_id question) (polls_choice db)"

text \<open>
  \<^verbatim>\<open>.get(pk=...)\<close> on a queryset of Choices: \<open>OverflowError\<close> for a key outside the
  store's range, the row with that key, or \<open>Choice.DoesNotExist\<close>.
\<close>

definition Choice_get :: "choice list \<Rightarrow> int \<Rightarrow> error + choice" where
  "Choice_get cs pk =
     (if in_db_range pk
      then (case List.find (\<lambda>c. c_id c = pk) cs of
              None \<Rightarrow> Inl DoesNotExist
            | Some c \<Rightarrow> Inr c)
      else Inl OverflowError)"

text \<open>
  \<^verbatim>\<open>selected_choice.save()\<close>: \<open>updated_at\<close> has \<open>auto_now=True\<close> and is set to the time
  of the save. The statement binds the object's integer fields (\<open>id\<close>, \<open>question_id\<close>,
  \<open>votes\<close>); when one of them is outside the store's range \<open>OverflowError\<close> is raised
  and nothing is written. Otherwise the row with the object's primary key is overwritten;
  when no row has that key the object is inserted, and \<open>created_at\<close>
  (\<open>auto_now_add=True\<close>) is set to the time of the save too.
\<close>

definition Choice_save :: "datetime \<Rightarrow> store \<Rightarrow> choice \<Rightarrow> error + store" where
  "Choice_save saved_at db obj =
     (let row = obj\<lparr>c_updated_at := saved_at\<rparr> in
      if in_db_range (c_id row) \<and> in_db_range (c_question_id row) \<and> in_db_range (votes row)
      then Inr (if c_id row \<in> set (map c_id (polls_choice db))
                then db\<lparr>polls_choice :=
                          map (\<lambda>r. if c_id r = c_id row then row else r) (polls_choice db)\<rparr>
                else db\<lparr>polls_choice := polls_choice db @ [row\<lparr>c_created_at := saved_at\<rparr>]\<rparr>)
      else Inl OverflowError)"

text \<open>
  \<^verbatim>\<open>create_choice\<close> of polls/tests.py:
  \<^verbatim>\<open>Choice.objects.create(choice_text=choice_text, question=question)\<close>.
  No value is given for \<open>votes\<close>, so the field takes its declared \<open>default=0\<close>; the
  database assigns the next free identifier and both timestamps are the time of creation.
\<close>

definition votes_default :: int where
  "votes_default = 0"

definition next_pk :: "int list \<Rightarrow> int" where
  "next_pk pks = fold max pks 0 + 1"

definition create_choice :: "datetime \<Rightarrow> store \<Rightarrow> string \<Rightarrow> question \<Rightarrow> choice \<times> store" where
  "create_choice now db text question =
     (let obj = \<lparr>c_id = next_pk (map c_id (polls_choice db)),
                 c_question_id = q_id question,
                 choice_text = text,
                 votes = votes_default,
                 c_created_at = now,
                 c_updated_at = now\<rparr>
      in (obj, db\<lparr>polls_choice := polls_choice db @ [obj]\<rparr>))"

section \<open>Requests and responses\<close>

text \<open>
  A submitted form field is text. The vote view hands the text of the field \<open>choice\<close> to
  a primary-key lookup, which reads it as an integer: \<open>Number n\<close> is a text that reads as
  the integer \<open>n\<close>, \<open>NotANumber s\<close> any other text.
\<close>

datatype form_value = Number int | NotANumber string

record request =
  POST :: "string \<rightharpoonup> form_value"

text \<open>
  The values a view puts into a template context: a list of Questions, one Question
  (with its Choices when they were fetched by \<open>prefetch_related\<close>), or a text.
\<close>

datatype ctx_value =
  QuerySet "question list"
| Instance question "choice list option"
| Text string

type_synonym template_context = "(string \<times> ctx_value) list"

text \<open>
  polls/urls.py is not among the sources, so a URL stays symbolic: the name of the route
  and its arguments, as given to \<open>reverse\<close>.
\<close>

type_synonym url = "string \<times> int list"

definition reverse :: "string \<Rightarrow> int list \<Rightarrow> url" where
  "reverse viewname args = (viewname, args)"

text \<open>
  A response is a rendered template (status, template name, context) or a redirect.
  \<open>render\<close> answers with status 200.
\<close>

datatype response =
  HttpResponse nat string template_context
| HttpResponseRedirect url

definition render :: "string \<Rightarrow> template_context \<Rightarrow> response" where
  "render template_name ctx = HttpResponse 200 template_name ctx"

text \<open>
  The status of what a view returns or raises: 404 for \<open>Http404\<close>, 500 for any other
  exception, the response's own status otherwise.
\<close>

fun status_code :: "error + response \<Rightarrow> nat" where
  "status_code (Inl (Http404 _)) = 404"
| "status_code (Inl DoesNotExist) = 500"
| "status_code (Inl ValueError) = 500"
| "status_code (Inl OverflowError) = 500"
| "status_code (Inr (HttpResponse s _ _)) = s"
| "status_code (Inr (HttpResponseRedirect _)) = 302"

definition error_message_text :: string where
  "error_message_text = ''You didn'' @ [CHR 0x27] @ ''t select a choice.''"

section \<open>The views (polls/views.py)\<close>

text \<open>
  \<^verbatim>\<open>def index(request)\<close>:
  \<^verbatim>\<open>questions = Question.objects.order_by('-pub_date')\<close>.
\<close>

definition index :: "datetime \<Rightarrow> store \<Rightarrow> request \<Rightarrow> error + response" where
  "index now db request =
     (let qs = order_by_pub_date_desc (get_queryset now db)
      in Inr (render ''polls/index.html'' [(''questions'', QuerySet qs)]))"

text \<open>
  \<^verbatim>\<open>def detail(request, question_id)\<close>:
  \<^verbatim>\<open>Question.objects.prefetch_related('question_choices').get(pk=question_id)\<close>,
  with \<open>Question.DoesNotExist\<close> turned into \<open>Http404\<close>; the \<open>except\<close> clause
  catches nothing else, so any other exception of the lookup leaves the view.
\<close>

definition detail :: "datetime \<Rightarrow> store \<Rightarrow> request \<Rightarrow> int \<Rightarrow> error + response" where
  "detail now db request question_id =
     (case Question_get (get_queryset now db) question_id of
        Inl e \<Rightarrow> Inl (if e = DoesNotExist then Http404 ''Question does not exist'' else e)
      | Inr question \<Rightarrow>
          Inr (render ''polls/detail.html''
                 [(''question'', Instance question (Some (question_choices db question)))]))"

text \<open>
  \<^verbatim>\<open>def vote(request, question_id)\<close>. The statements of the \<open>try\<close> block run in
  order: the Question lookup, the read of \<open>request.POST['choice']\<close> (\<open>KeyError\<close> when
  the field is absent), the Choice lookup among the Question's Choices. The first
  \<open>except\<close> clause turns \<open>Question.DoesNotExist\<close> into \<open>Http404\<close>; the second turns
  \<open>KeyError\<close> and \<open>Choice.DoesNotExist\<close> into the detail template with the error
  message; \<open>ValueError\<close> and \<open>OverflowError\<close> are caught by neither. After the
  \<open>try\<close>: \<open>selected_choice.votes += 1\<close> (on Python's unbounded integers),
  \<open>selected_choice.save()\<close>, whose exception nothing catches, and the redirect. The view
  reads the clock twice: \<open>now\<close> in the manager's filter and \<open>saved_at\<close> in the save.
\<close>

definition vote ::
  "datetime \<Rightarrow> datetime \<Rightarrow> store \<Rightarrow> request \<Rightarrow> int \<Rightarrow> (error + response) \<times> store" where
  "vote now saved_at db request question_id =
     (case Question_get (get_queryset now db) question_id of
        Inl e \<Rightarrow>
          (Inl (if e = DoesNotExist then Http404 ''Question does not exist'' else e), db)
      | Inr question \<Rightarrow>
          (case POST request ''choice'' of
             None \<Rightarrow>
               (Inr (render ''polls/detail.html''
                       [(''question'', Instance question None),
                        (''error_message'', Text error_message_text)]), db)
           | Some (NotANumber s) \<Rightarrow> (Inl ValueError, db)
           | Some (Number pk) \<Rightarrow>
               (case Choice_get (question_choices db question) pk of
                  Inl e \<Rightarrow>
                    (if e = DoesNotExist
                     then (Inr (render ''polls/detail.html''
                                  [(''question'', Instance question None),
                                   (''error_message'', Text error_message_text)]), db)
                     else (Inl e, db))
                | Inr selected_choice \<Rightarrow>
                    (case Choice_save saved_at db
                            (selected_choice\<lparr>votes := votes selected_choice + 1\<rparr>) of
                       Inl e \<Rightarrow> (Inl e, db)
                     | Inr db' \<Rightarrow>
                         (Inr (HttpResponseRedirect
                                 (reverse ''polls:results'' [q_id question])), db')))))"

text \<open>
  \<^verbatim>\<open>def results(request, question_id)\<close>: the lookup of \<open>detail\<close>, rendered with the
  results template.
\<close>

definition results :: "datetime \<Rightarrow> store \<Rightarrow> request \<Rightarrow> int \<Rightarrow> error + response" where
  "results now db request question_id =
     (case Question_get (get_queryset now db) question_id of
        Inl e \<Rightarrow> Inl (if e = DoesNotExist then Http404 ''Question does not exist'' else e)
      | Inr question \<Rightarrow>
          Inr (render ''polls/results.html''
                 [(''question'', Instance question (Some (question_choices db question)))]))"

text \<open>The votes counter stored under a Choice identifier, when a row has it.\<close>

definition votes_of :: "store \<Rightarrow> int \<Rightarrow> int option" where
  "votes_of db pk = map_option votes (List.find (\<lambda>c. c_id c = pk) (polls_choice db))"

section \<open>Example stores\<close>

definition q_past :: question where
  "q_past = \<lparr>q_id = 1, question_text = ''Past question.'', pub_date = 10,
             q_created_at = 50, q_updated_at = 50\<rparr>"

definition q_future :: question where
  "q_future = \<lparr>q_id = 2, question_text = ''Future question.'', pub_date = 200,
               q_created_at = 60, q_updated_at = 60\<rparr>"

definition c_past :: choice where
  "c_past = \<lparr>c_id = 1, c_question_id = 1, choice_text = ''Choice 1'', votes = 0,
             c_created_at = 70, c_updated_at = 70\<rparr>"

definition c_past2 :: choice where
  "c_past2 = \<lparr>c_id = 2, c_question_id = 1, choice_text = ''Choice 2'', votes = 4,
              c_created_at = 71, c_updated_at = 71\<rparr>"

definition c_future :: choice where
  "c_future = \<lparr>c_id = 3, c_question_id = 2, choice_text = ''Choice 3'', votes = 0,
               c_created_at = 72, c_updated_at = 72\<rparr>"

definition db_example :: store where
  "db_example = \<lparr>polls_question = [q_past, q_future],
                 polls_choice = [c_past, c_past2, c_future]\<rparr>"

definition post_choice :: "form_value \<Rightarrow> request" where
  "post_choice v = \<lparr>POST = [''choice'' \<mapsto> v]\<rparr>"

definition post_nothing :: request where
  "post_nothing = \<lparr>POST = Map.empty\<rparr>"

text \<open>The first integer above the store's range.\<close>

definition too_large :: int where
  "too_large = 9223372036854775808"

definition c_full :: choice where
  "c_full = \<lparr>c_id = 1, c_question_id = 1, choice_text = ''Choice 1'',
             votes = 9223372036854775807, c_created_at = 70, c_updated_at = 70\<rparr>"

definition db_full :: store where
  "db_full = \<lparr>polls_question = [q_past], polls_choice = [c_full]\<rparr>"

definition q_older :: question where
  "q_older = \<lparr>q_id = 3, question_text = ''Question 1'', pub_date = 5,
              q_created_at = 80, q_updated_at = 80\<rparr>"

definition q_newer :: question where
  "q_newer = \<lparr>q_id = 4, question_text = ''Question 3'', pub_date = 30,
              q_created_at = 81, q_updated_at = 81\<rparr>"

section \<open>Lookup lemmas\<close>

lemma in_db_range_too_large: "\<not> in_db_range too_large"
  by (simp add: in_db_range_def too_large_def)

lemma find_question_Some:
  "distinct (map q_id qs) \<Longrightarrow> q \<in> set qs \<Longrightarrow> List.find (\<lambda>r. q_id r = q_id q) qs = Some q"
  by (induction qs) (auto simp: image_iff)

lemma find_choice_Some:
  "distinct (map c_id cs) \<Longrightarrow> c \<in> set cs \<Longrightarrow> List.find (\<lambda>r. c_id r = c_id c) cs = Some c"
  by (induction cs) (auto simp: image_iff)

lemma Question_get_overflow:
  "\<not> in_db_range pk \<Longrightarrow> Question_get qs pk = Inl OverflowError"
  by (simp add: Question_get_def)

lemma Question_get_missing:
  "in_db_range pk \<Longrightarrow> pk \<notin> q_id ` set qs \<Longrightarrow> Question_get qs pk = Inl DoesNotExist"
proof -
  assume r: "in_db_range pk" and "pk \<notin> q_id ` set qs"
  then have "List.find (\<lambda>q. q_id q = pk) qs = None"
    by (auto simp: find_None_iff)
  with r show ?thesis by (simp add: Question_get_def)
qed

lemma Question_get_found:
  assumes "in_db_range (q_id q)" "distinct (map q_id qs)" "q \<in> set qs"
  shows "Question_get qs (q_id q) = Inr q"
  using assms(1) find_question_Some [OF assms(2,3)] by (simp add: Question_get_def)

lemma Question_get_InrD:
  assumes "Question_get qs pk = Inr q"
  shows "q \<in> set qs \<and> q_id q = pk"
proof -
  from assms have "List.find (\<lambda>q. q_id q = pk) qs = Some q"
    by (auto simp: Question_get_def split: if_splits option.splits)
  then show ?thesis by (auto simp: find_Some_iff)
qed

lemma distinct_get_queryset:
  "distinct (map q_id (polls_question db)) \<Longrightarrow> distinct (map q_id (get_queryset now db))"
  by (simp add: get_queryset_def distinct_map_filter)

lemma set_get_queryset:
  "set (get_queryset now db) = {q \<in> set (polls_question db). pub_date q \<le> now}"
  by (simp add: get_queryset_def)

lemma Choice_get_InrD:
  assumes "Choice_get cs pk = Inr c"
  shows "c \<in> set cs \<and> c_id c = pk"
proof -
  from assms have "List.find (\<lambda>c. c_id c = pk) cs = Some c"
    by (auto simp: Choice_get_def split: if_splits option.splits)
  then show ?thesis by (auto simp: find_Some_iff)
qed

lemma Choice_get_missing:
  "in_db_range pk \<Longrightarrow> pk \<notin> c_id ` set cs \<Longrightarrow> Choice_get cs pk = Inl DoesNotExist"
proof -
  assume r: "in_db_range pk" and "pk \<notin> c_id ` set cs"
  then have "List.find (\<lambda>c. c_id c = pk) cs = None"
    by (auto simp: find_None_iff)
  with r show ?thesis by (simp add: Choice_get_def)
qed

lemma Choice_get_found:
  assumes "in_db_range (c_id c)" "distinct (map c_id cs)" "c \<in> set cs"
  shows "Choice_get cs (c_id c) = Inr c"
  using assms(1) find_choice_Some [OF assms(2,3)] by (simp add: Choice_get_def)

lemma set_question_choices:
  "set (question_choices db question) =
     {c \<in> set (polls_choice db). c_question_id c = q_id question}"
  by (simp add: question_choices_def)

lemma distinct_question_choices:
  "distinct (map c_id (polls_choice db)) \<Longrightarrow> distinct (map c_id (question_choices db question))"
  by (simp add: question_choices_def distinct_map_filter)

lemma pks_in_range_question:
  "pks_in_range db \<Longrightarrow> q \<in> set (polls_question db) \<Longrightarrow> in_db_range (q_id q)"
  by (simp add: pks_in_range_def list_all_iff)

lemma pks_in_range_choice:
  "pks_in_range db \<Longrightarrow> c \<in> set (polls_choice db) \<Longrightarrow> in_db_range (c_id c)"
  by (simp add: pks_in_range_def list_all_iff)

lemma overwrite_row:
  "distinct (map c_id cs) \<Longrightarrow> c \<in> set cs \<Longrightarrow> c_id c' = c_id c \<Longrightarrow>
   \<exists>i<length cs. cs ! i = c \<and> map (\<lambda>r. if c_id r = c_id c' then c' else r) cs = cs[i := c']"
proof (induction cs)
  case Nil
  then show ?case by simp
next
  case (Cons a cs)
  show ?case
  proof (cases "a = c")
    case True
    with Cons.prems have "\<forall>r\<in>set cs. c_id r \<noteq> c_id c'" by (auto simp: image_iff)
    then have "map (\<lambda>r. if c_id r = c_id c' then c' else r) cs = cs"
      by (induction cs) auto
    with True Cons.prems show ?thesis by (intro exI[of _ 0]) simp
  next
    case False
    with Cons.prems have "c \<in> set cs" "distinct (map c_id cs)" "c_id a \<noteq> c_id c'"
      by (auto simp: image_iff)
    with Cons.IH Cons.prems obtain i where
      "i < length cs" "cs ! i = c" "map (\<lambda>r. if c_id r = c_id c' then c' else r) cs = cs[i := c']"
      by blast
    with \<open>c_id a \<noteq> c_id c'\<close> show ?thesis by (intro exI[of _ "Suc i"]) simp
  qed
qed

lemma Choice_save_written:
  assumes "distinct (map c_id (polls_choice db))" "c \<in> set (polls_choice db)" "c_id obj = c_id c"
    and "Choice_save saved_at db obj = Inr db'"
  shows "\<exists>i<length (polls_choice db). polls_choice db ! i = c \<and>
           db' = db\<lparr>polls_choice := (polls_choice db)[i := obj\<lparr>c_updated_at := saved_at\<rparr>]\<rparr>"
proof -
  let ?row = "obj\<lparr>c_updated_at := saved_at\<rparr>"
  have "c_id ?row = c_id c" using assms(3) by simp
  from overwrite_row [OF assms(1,2) this] obtain i where
    i: "i < length (polls_choice db)" "polls_choice db ! i = c"
     "map (\<lambda>r. if c_id r = c_id ?row then ?row else r) (polls_choice db)
        = (polls_choice db)[i := ?row]" by blast
  have mem: "c_id obj \<in> set (map c_id (polls_choice db))"
    using assms(2,3) by (auto simp: image_iff)
  from assms(4) have "db' = db\<lparr>polls_choice :=
      map (\<lambda>r. if c_id r = c_id ?row then ?row else r) (polls_choice db)\<rparr>"
    using mem by (simp add: Choice_save_def Let_def split: if_splits)
  with i show ?thesis by auto
qed

lemma Choice_save_in_range:
  assumes "in_db_range (c_id obj)" "in_db_range (c_question_id obj)" "in_db_range (votes obj)"
  shows "\<exists>db'. Choice_save saved_at db obj = Inr db'"
  using assms by (simp add: Choice_save_def Let_def)

text \<open>The ways through vote.\<close>

lemma vote_cases:
  obtains
    (q_error) e where "Question_get (get_queryset now db) question_id = Inl e"
      "vote now saved_at db request question_id =
         (Inl (if e = DoesNotExist then Http404 ''Question does not exist'' else e), db)"
  | (no_field) question where "Question_get (get_queryset now db) question_id = Inr question"
      "POST request ''choice'' = None"
      "vote now saved_at db request question_id =
         (Inr (render ''polls/detail.html''
                 [(''question'', Instance question None),
                  (''error_message'', Text error_message_text)]), db)"
  | (not_a_number) question s where "Question_get (get_queryset now db) question_id = Inr question"
      "POST request ''choice'' = Some (NotANumber s)"
      "vote now saved_at db request question_id = (Inl ValueError, db)"
  | (c_missing) question pk where "Question_get (get_queryset now db) question_id = Inr question"
      "POST request ''choice'' = Some (Number pk)"
      "Choice_get (question_choices db question) pk = Inl DoesNotExist"
      "vote now saved_at db request question_id =
         (Inr (render ''polls/detail.html''
                 [(''question'', Instance question None),
                  (''error_message'', Text error_message_text)]), db)"
  | (c_error) question pk e where "Question_get (get_queryset now db) question_id = Inr question"
      "POST request ''choice'' = Some (Number pk)"
      "Choice_get (question_choices db question) pk = Inl e" "e \<noteq> DoesNotExist"
      "vote now saved_at db request question_id = (Inl e, db)"
  | (save_error) question pk selected_choice e where
      "Question_get (get_queryset now db) question_id = Inr question"
      "POST request ''choice'' = Some (Number pk)"
      "Choice_get (question_choices db question) pk = Inr selected_choice"
      "Choice_save saved_at db (selected_choice\<lparr>votes := votes selected_choice + 1\<rparr>) = Inl e"
      "vote now saved_at db request question_id = (Inl e, db)"
  | (voted) question pk selected_choice db' where
      "Question_get (get_queryset now db) question_id = Inr question"
      "POST request ''choice'' = Some (Number pk)"
      "Choice_get (question_choices db question) pk = Inr selected_choice"
      "Choice_save saved_at db (selected_choice\<lparr>votes := votes selected_choice + 1\<rparr>) = Inr db'"
      "vote now saved_at db request question_id =
         (Inr (HttpResponseRedirect (reverse ''polls:results'' [q_id question])), db')"
proof (cases "Question_get (get_queryset now db) question_id")
  case (Inl e)
  then show ?thesis using q_error by (simp add: vote_def)
next
  case q: (Inr question)
  show ?thesis
  proof (cases "POST request ''choice''")
    case None
    with q show ?thesis using no_field by (simp add: vote_def)
  next
    case (Some v)
    show ?thesis
    proof (cases v)
      case (NotANumber s)
      with q Some show ?thesis using not_a_number by (simp add: vote_def)
    next
      case (Number pk)
      show ?thesis
      proof (cases "Choice_get (question_choices db question) pk")
        case (Inl e)
        show ?thesis
        proof (cases "e = DoesNotExist")
          case True
          with q Some Number Inl show ?thesis using c_missing by (simp add: vote_def)
        next
          case False
          with q Some Number Inl show ?thesis using c_error by (simp add: vote_def)
        qed
      next
        case c: (Inr selected_choice)
        show ?thesis
        proof (cases "Choice_save saved_at db
                        (selected_choice\<lparr>votes := votes selected_choice + 1\<rparr>)")
          case (Inl e)
          with q Some Number c show ?thesis using save_error by (simp add: vote_def)
        next
          case (Inr db')
          with q Some Number c show ?thesis using voted by (simp add: vote_def)
        qed
      qed
    qed
  qed
qed

lemma future_question_hidden:
  assumes "unique_pks db" "pks_in_range db" "q \<in> set (polls_question db)" "now < pub_date q"
  shows "Question_get (get_queryset now db) (q_id q) = Inl DoesNotExist"
proof -
  have "q' \<in> set (polls_question db) \<Longrightarrow> q_id q' = q_id q \<Longrightarrow> q' = q" for q'
    using assms(1,3) by (auto simp: unique_pks_def distinct_map dest: inj_onD)
  with assms(4) have "q_id q \<notin> q_id ` set (get_queryset now db)"
    by (auto simp: set_get_queryset)
  with pks_in_range_question [OF assms(2,3)] show ?thesis
    by (rule Question_get_missing)
qed

lemma published_question_found:
  assumes "unique_pks db" "pks_in_range db" "q \<in> set (polls_question db)" "pub_date q \<le> now"
  shows "Question_get (get_queryset now db) (q_id q) = Inr q"
proof -
  from assms(1) have "distinct (map q_id (get_queryset now db))"
    by (simp add: unique_pks_def distinct_get_queryset)
  moreover from assms(3,4) have "q \<in> set (get_queryset now db)"
    by (simp add: set_get_queryset)
  ultimately show ?thesis
    using pks_in_range_question [OF assms(2,3)] by (intro Question_get_found)
qed

lemma unique_pks_db_example: "unique_pks db_example"
  by (simp add: unique_pks_def db_example_def q_past_def q_future_def
      c_past_def c_past2_def c_future_def)

lemma pks_in_range_db_example: "pks_in_range db_example"
  by (simp add: pks_in_range_def in_db_range_def db_example_def q_past_def q_future_def
      c_past_def c_past2_def c_future_def)

lemma vote_effect:
  assumes "unique_pks db"
  shows "(\<exists>e. vote now saved_at db request question_id = (Inl e, db)) \<or>
         (\<exists>t ctx. vote now saved_at db request question_id = (Inr (render t ctx), db)) \<or>
         (\<exists>question i. i < length (polls_choice db) \<and>
            Question_get (get_queryset now db) question_id = Inr question \<and>
            POST request ''choice'' = Some (Number (c_id (polls_choice db ! i))) \<and>
            c_question_id (polls_choice db ! i) = q_id question \<and>
            vote now saved_at db request question_id =
              (Inr (HttpResponseRedirect (reverse ''polls:results'' [q_id question])),
               db\<lparr>polls_choice := (polls_choice db)
                  [i := (polls_choice db ! i)
                          \<lparr>votes := votes (polls_choice db ! i) + 1,
                           c_updated_at := saved_at\<rparr>]\<rparr>))"
proof (cases rule: vote_cases [of now db question_id saved_at request])
  case (q_error e)
  then show ?thesis by simp
next
  case (no_field question)
  then show ?thesis by blast
next
  case (not_a_number question s)
  then show ?thesis by simp
next
  case (c_missing question pk)
  then show ?thesis by blast
next
  case (c_error question pk e)
  then show ?thesis by simp
next
  case (save_error question pk selected_choice e)
  then show ?thesis by simp
next
  case (voted question pk selected_choice db')
  from voted(3) have sel: "selected_choice \<in> set (question_choices db question)"
      "c_id selected_choice = pk"
    using Choice_get_InrD by blast+
  then have mem: "selected_choice \<in> set (polls_choice db)"
      and fk: "c_question_id selected_choice = q_id question"
    by (simp_all add: set_question_choices)
  from assms have d: "distinct (map c_id (polls_choice db))"
    by (simp add: unique_pks_def)
  have "c_id (selected_choice\<lparr>votes := votes selected_choice + 1\<rparr>) = c_id selected_choice"
    by simp
  from Choice_save_written [OF d mem this voted(4)]
  obtain i where i: "i < length (polls_choice db)" "polls_choice db ! i = selected_choice"
    "db' = db\<lparr>polls_choice := (polls_choice db)
          [i := selected_choice\<lparr>votes := votes selected_choice + 1,
                                c_updated_at := saved_at\<rparr>]\<rparr>"
    by auto
  with voted sel fk show ?thesis by auto
qed

lemma votes_of_list_update:
  assumes "distinct (map c_id cs)" "i < length cs" "c_id c' = c_id (cs ! i)"
  shows "List.find (\<lambda>r. c_id r = c_id c') (cs[i := c']) = Some c'"
proof -
  have "map c_id (cs[i := c']) = (map c_id cs)[i := c_id (cs ! i)]"
    using assms(3) by (simp add: map_update)
  also have "\<dots> = map c_id cs"
    using assms(2) by (simp add: list_update_same_conv)
  finally have "distinct (map c_id (cs[i := c']))" using assms(1) by simp
  moreover have "c' \<in> set (cs[i := c'])" using assms(2) by (rule set_update_memI)
  ultimately show ?thesis by (rule find_choice_Some)
qed

lemma fold_max_ge_init: "(a::int) \<le> fold max pks a"
proof (induction pks arbitrary: a)
  case Nil
  then show ?case by simp
next
  case (Cons p pks)
  have "a \<le> max p a" by simp
  also have "\<dots> \<le> fold max pks (max p a)" by (rule Cons.IH)
  finally show ?case by simp
qed

lemma fold_max_ge_mem: "x \<in> set pks \<Longrightarrow> (x::int) \<le> fold max pks a"
proof (induction pks arbitrary: a)
  case Nil
  then show ?case by simp
next
  case (Cons p pks)
  show ?case
  proof (cases "x = p")
    case True
    have "x \<le> max p a" using True by simp
    also have "\<dots> \<le> fold max pks (max p a)" by (rule fold_max_ge_init)
    finally show ?thesis by simp
  next
    case False
    with Cons.prems have "x \<in> set pks" by simp
    then have "x \<le> fold max pks (max p a)" by (rule Cons.IH)
    then show ?thesis by simp
  qed
qed

lemma next_pk_fresh: "next_pk pks \<notin> set pks"
proof
  assume "next_pk pks \<in> set pks"
  then have "next_pk pks \<le> fold max pks 0" by (rule fold_max_ge_mem)
  then show False by (simp add: next_pk_def)
qed

text \<open>
  A submitted text that is not a number, for a published Question: the lookup raises
  \<open>ValueError\<close>, neither \<open>except\<close> clause of the view catches it, and nothing is
  written.
\<close>

lemma vote_not_a_number_raises:
  assumes "unique_pks db" "pks_in_range db" "q \<in> set (polls_question db)" "pub_date q \<le> now"
    and "POST request ''choice'' = Some (NotANumber s)"
  shows "vote now saved_at db request (q_id q) = (Inl ValueError, db)"
  using published_question_found [OF assms(1-4)] assms(5)
  by (simp add: vote_def)

text \<open>
  A submitted integer outside the store's range, and a counter already at the store's
  maximum: the Choice lookup, respectively the save, raises \<open>OverflowError\<close>, which
  nothing in the view catches, and nothing is written.
\<close>

lemma vote_choice_too_large_raises:
  "vote 100 150 db_example (post_choice (Number too_large)) 1 = (Inl OverflowError, db_example)"
  by (simp add: vote_def get_queryset_def Question_get_def Choice_get_def in_db_range_def
      too_large_def db_example_def post_choice_def q_past_def q_future_def)

lemma vote_counter_full_raises:
  "vote 100 150 db_full (post_choice (Number 1)) 1 = (Inl OverflowError, db_full)"
  by (simp add: vote_def get_queryset_def Question_get_def Choice_get_def Choice_save_def
      question_choices_def in_db_range_def db_full_def post_choice_def q_past_def c_full_def)

text \<open>
  An identifier within the store's range that no Question row has: the lookup raises
  \<open>Question.DoesNotExist\<close> and each of the three views turns it into \<open>Http404\<close>.
\<close>

lemma missing_question_in_range_not_found:
  assumes "in_db_range question_id" "question_id \<notin> q_id ` set (polls_question db)"
  shows "detail now db request question_id = Inl (Http404 ''Question does not exist'') \<and>
         vote now saved_at db request question_id =
           (Inl (Http404 ''Question does not exist''), db) \<and>
         results now db request question_id = Inl (Http404 ''Question does not exist'')"
proof -
  from assms(2) have "question_id \<notin> q_id ` set (get_queryset now db)"
    by (auto simp: set_get_queryset)
  with assms(1) have "Question_get (get_queryset now db) question_id = Inl DoesNotExist"
    by (rule Question_get_missing)
  then show ?thesis
    by (simp add: detail_def vote_def results_def)
qed

section \<open>The published-question query\<close>

text \<open>
  C3. For every store and every current time \<open>now\<close>, the manager's queryset holds
  exactly the stored Questions whose \<open>pub_date\<close> is at or before \<open>now\<close>; ordering
  the queryset for a listing keeps the same Questions, so no Question published after
  \<open>now\<close> is in a listing driven by this query.
\<close>

theorem published_query_exact:
  "set (get_queryset now db) = {q \<in> set (polls_question db). pub_date q \<le> now} \<and>
   set (order_by_pub_date_desc (get_queryset now db)) =
     {q \<in> set (polls_question db). pub_date q \<le> now} \<and>
   (\<forall>q \<in> set (order_by_pub_date_desc (get_queryset now db)). \<not> now < pub_date q)"
  by (auto simp: set_get_queryset order_by_pub_date_desc_def)

theorem published_query_exact_witness:
  "q_past \<in> set (order_by_pub_date_desc (get_queryset 100 db_example)) \<and>
   \<not> 100 < pub_date q_past \<and>
   q_future \<in> set (polls_question db_example) \<and>
   q_future \<notin> set (get_queryset 100 db_example)"
  using published_query_exact [of 100 db_example]
  by (simp add: db_example_def q_past_def q_future_def)

section \<open>Unknown and unpublished questions\<close>

text \<open>
  C6. The claim: for every question identifier that no Question row has, detail, vote and
  results each answer "not found". The views do so for an identifier within the store's
  range (lemma \<open>missing_question_in_range_not_found\<close>), as the tests of polls/tests.py
  describe for a non-existing identifier. For the identifier \<open>2 ^ 63\<close>, which no row
  has, the lookup raises \<open>OverflowError\<close> instead of \<open>Question.DoesNotExist\<close>; the
  \<open>except\<close> clause does not catch it, and each of the three views answers with
  status 500, vote leaving the store as it was.
\<close>

theorem missing_question_out_of_range_raises:
  "too_large = 2 ^ 63 \<and>
   too_large \<notin> q_id ` set (polls_question db_example) \<and>
   detail 100 db_example post_nothing too_large = Inl OverflowError \<and>
   vote 100 150 db_example (post_choice (Number 1)) too_large =
     (Inl OverflowError, db_example) \<and>
   results 100 db_example post_nothing too_large = Inl OverflowError \<and>
   status_code (detail 100 db_example post_nothing too_large) = 500 \<and>
   status_code (fst (vote 100 150 db_example (post_choice (Number 1)) too_large)) = 500 \<and>
   status_code (results 100 db_example post_nothing too_large) = 500"
proof -
  have "Question_get (get_queryset now db_example) too_large = Inl OverflowError" for now
    using in_db_range_too_large by (rule Question_get_overflow)
  moreover have "too_large \<notin> q_id ` set (polls_question db_example)"
    by (simp add: too_large_def db_example_def q_past_def q_future_def)
  moreover have "too_large = 2 ^ 63"
    by (simp add: too_large_def)
  ultimately show ?thesis
    by (simp add: detail_def vote_def results_def)
qed

text \<open>
  C10. In a store whose primary keys are unique values of its integer type, for a stored
  Question whose \<open>pub_date\<close> is after the current time, vote and
  results raise \<open>Http404\<close> for its identifier, and vote returns the store unchanged:
  both views look the Question up through the manager, whose queryset holds published
  Questions only.
\<close>

theorem future_question_vote_results_not_found:
  assumes "unique_pks db" "pks_in_range db" "q \<in> set (polls_question db)" "now < pub_date q"
  shows "vote now saved_at db request (q_id q) =
           (Inl (Http404 ''Question does not exist''), db) \<and>
         results now db request (q_id q) = Inl (Http404 ''Question does not exist'') \<and>
         status_code (fst (vote now saved_at db request (q_id q))) = 404 \<and>
         status_code (results now db request (q_id q)) = 404"
  using future_question_hidden [OF assms]
  by (simp add: vote_def results_def)

theorem future_question_vote_results_not_found_witness:
  "unique_pks db_example \<and> pks_in_range db_example \<and>
   q_future \<in> set (polls_question db_example) \<and>
   100 < pub_date q_future \<and>
   vote 100 150 db_example (post_choice (Number 3)) (q_id q_future) =
     (Inl (Http404 ''Question does not exist''), db_example) \<and>
   results 100 db_example post_nothing (q_id q_future) =
     Inl (Http404 ''Question does not exist'')"
proof -
  have h: "q_future \<in> set (polls_question db_example)" "100 < pub_date q_future"
    by (simp_all add: db_example_def q_future_def)
  show ?thesis
    using h unique_pks_db_example pks_in_range_db_example
      future_question_vote_results_not_found
        [OF unique_pks_db_example pks_in_range_db_example h,
         where request = "post_choice (Number 3)" and saved_at = 150]
      future_question_vote_results_not_found
        [OF unique_pks_db_example pks_in_range_db_example h,
         where request = post_nothing]
    by simp
qed

section \<open>The list view\<close>

text \<open>
  C4 (as stated, refuted). The claim has the list view return every stored Question
  whatever its \<open>pub_date\<close>. In the example store a Question published after the
  current time is stored and the list view leaves it out.
\<close>

theorem index_hides_future_counterexample:
  "q_future \<in> set (polls_question db_example) \<and>
   index 100 db_example post_nothing =
     Inr (render ''polls/index.html'' [(''questions'', QuerySet [q_past])]) \<and>
   q_future \<notin> set [q_past]"
  by (simp add: index_def get_queryset_def order_by_pub_date_desc_def db_example_def
      q_past_def q_future_def)

text \<open>
  C4 (amended). The list view returns exactly the stored Questions whose \<open>pub_date\<close>
  is at or before the current time, each as often as it is stored: its query starts from
  the manager's queryset, so a Question published after the current time is not listed.
\<close>

theorem index_lists_published_only:
  "\<exists>qs. index now db request =
           Inr (render ''polls/index.html'' [(''questions'', QuerySet qs)]) \<and>
        set qs = {q \<in> set (polls_question db). pub_date q \<le> now} \<and>
        length qs = length (filter (\<lambda>q. pub_date q \<le> now) (polls_question db)) \<and>
        (\<forall>q \<in> set (polls_question db). now < pub_date q \<longrightarrow> q \<notin> set qs)"
proof -
  let ?qs = "order_by_pub_date_desc (get_queryset now db)"
  have "index now db request =
          Inr (render ''polls/index.html'' [(''questions'', QuerySet ?qs)])"
    by (simp add: index_def)
  moreover have s: "set ?qs = {q \<in> set (polls_question db). pub_date q \<le> now}"
    by (simp add: order_by_pub_date_desc_def set_get_queryset)
  moreover have "length ?qs = length (filter (\<lambda>q. pub_date q \<le> now) (polls_question db))"
    by (simp add: order_by_pub_date_desc_def get_queryset_def)
  moreover have "\<forall>q \<in> set (polls_question db). now < pub_date q \<longrightarrow> q \<notin> set ?qs"
    unfolding s by simp
  ultimately show ?thesis by blast
qed

theorem index_lists_published_only_witness:
  "\<exists>qs. index 100 db_example post_nothing =
           Inr (render ''polls/index.html'' [(''questions'', QuerySet qs)]) \<and>
        q_past \<in> set qs \<and> length qs = 1 \<and>
        q_future \<in> set (polls_question db_example) \<and> 100 < pub_date q_future \<and>
        q_future \<notin> set qs"
proof -
  from index_lists_published_only [of 100 db_example post_nothing] obtain qs where
    a: "index 100 db_example post_nothing =
          Inr (render ''polls/index.html'' [(''questions'', QuerySet qs)])" and
    b: "set qs = {q \<in> set (polls_question db_example). pub_date q \<le> 100}" and
    c: "length qs = length (filter (\<lambda>q. pub_date q \<le> 100) (polls_question db_example))" and
    d: "\<forall>q \<in> set (polls_question db_example). 100 < pub_date q \<longrightarrow> q \<notin> set qs"
    by blast
  have t: "polls_question db_example = [q_past, q_future]"
    by (simp add: db_example_def)
  have p: "pub_date q_past = 10" "pub_date q_future = 200"
    by (simp_all add: q_past_def q_future_def)
  have "q_past \<in> set qs" unfolding b t using p by simp
  moreover have "length qs = 1" unfolding c t using p by simp
  moreover have "q_future \<in> set (polls_question db_example)" unfolding t by simp
  moreover have "100 < pub_date q_future" using p by simp
  moreover from d have "q_future \<notin> set qs" unfolding t using p by simp
  ultimately show ?thesis using a by blast
qed

text \<open>
  C7. The Questions the list view returns are in descending order of \<open>pub_date\<close>.
  In particular, for a table holding three Questions with \<open>pub_date\<close> ascending, the
  view returns those of them that are published in the order newest, middle, oldest.
\<close>

theorem index_sorted_newest_first:
  "(\<exists>qs. index now db request =
            Inr (render ''polls/index.html'' [(''questions'', QuerySet qs)]) \<and>
         sorted_wrt (\<lambda>a b. pub_date b \<le> pub_date a) qs) \<and>
   (pub_date q1 < pub_date q2 \<and> pub_date q2 < pub_date q3 \<longrightarrow>
      index now \<lparr>polls_question = [q1, q2, q3], polls_choice = cs\<rparr> request =
        Inr (render ''polls/index.html''
               [(''questions'', QuerySet (filter (\<lambda>q. pub_date q \<le> now) [q3, q2, q1]))]))"
proof (intro conjI impI)
  have "sorted (map (\<lambda>q. - pub_date q) (order_by_pub_date_desc (get_queryset now db)))"
    by (simp add: order_by_pub_date_desc_def)
  then have "sorted_wrt (\<lambda>a b. pub_date b \<le> pub_date a)
               (order_by_pub_date_desc (get_queryset now db))"
    by (simp add: sorted_map)
  moreover have "index now db request =
      Inr (render ''polls/index.html''
             [(''questions'', QuerySet (order_by_pub_date_desc (get_queryset now db)))])"
    by (simp add: index_def)
  ultimately show "\<exists>qs. index now db request =
            Inr (render ''polls/index.html'' [(''questions'', QuerySet qs)]) \<and>
         sorted_wrt (\<lambda>a b. pub_date b \<le> pub_date a) qs"
    by blast
next
  assume "pub_date q1 < pub_date q2 \<and> pub_date q2 < pub_date q3"
  then have "order_by_pub_date_desc
        (get_queryset now \<lparr>polls_question = [q1, q2, q3], polls_choice = cs\<rparr>)
        = filter (\<lambda>q. pub_date q \<le> now) [q3, q2, q1]"
    by (simp add: order_by_pub_date_desc_def get_queryset_def)
  then show "index now \<lparr>polls_question = [q1, q2, q3], polls_choice = cs\<rparr> request =
        Inr (render ''polls/index.html''
               [(''questions'', QuerySet (filter (\<lambda>q. pub_date q \<le> now) [q3, q2, q1]))])"
    unfolding index_def Let_def by (rule arg_cong)
qed

theorem index_sorted_newest_first_witness:
  "pub_date q_older < pub_date q_past \<and> pub_date q_past < pub_date q_newer \<and>
   index 100 \<lparr>polls_question = [q_older, q_past, q_newer], polls_choice = []\<rparr> post_nothing =
     Inr (render ''polls/index.html'' [(''questions'', QuerySet [q_newer, q_past, q_older])])"
proof -
  have h: "pub_date q_older < pub_date q_past \<and> pub_date q_past < pub_date q_newer"
    by (simp add: q_older_def q_past_def q_newer_def)
  have p: "filter (\<lambda>q. pub_date q \<le> 100) [q_newer, q_past, q_older] = [q_newer, q_past, q_older]"
    by (simp add: q_older_def q_past_def q_newer_def)
  from index_sorted_newest_first [of 100 db_example post_nothing q_older q_past q_newer "[]"] h
  have "index 100 \<lparr>polls_question = [q_older, q_past, q_newer], polls_choice = []\<rparr> post_nothing =
     Inr (render ''polls/index.html''
       [(''questions'', QuerySet (filter (\<lambda>q. pub_date q \<le> 100) [q_newer, q_past, q_older]))])"
    by blast
  with h p show ?thesis by simp
qed

section \<open>The detail view\<close>

text \<open>
  C5 (as stated, refuted). The claim has the detail view render a stored Question whose
  \<open>pub_date\<close> is after the current time. In the example store the view raises
  \<open>Http404\<close> for such a Question.
\<close>

theorem detail_future_question_counterexample:
  "q_future \<in> set (polls_question db_example) \<and> 100 < pub_date q_future \<and>
   detail 100 db_example post_nothing (q_id q_future) =
     Inl (Http404 ''Question does not exist'')"
  by (simp add: detail_def get_queryset_def Question_get_def in_db_range_def db_example_def
      q_past_def q_future_def)

text \<open>
  C5 (amended). In a store whose primary keys are unique values of its integer type, for
  a stored Question whose \<open>pub_date\<close> is after the current time, the detail view
  raises \<open>Http404\<close> (status 404) for its identifier: the lookup goes through the
  manager's queryset, which holds published Questions only.
\<close>

theorem detail_future_question_not_found:
  assumes "unique_pks db" "pks_in_range db" "q \<in> set (polls_question db)" "now < pub_date q"
  shows "detail now db request (q_id q) = Inl (Http404 ''Question does not exist'') \<and>
         status_code (detail now db request (q_id q)) = 404"
  using future_question_hidden [OF assms]
  by (simp add: detail_def)

theorem detail_future_question_not_found_witness:
  "unique_pks db_example \<and> pks_in_range db_example \<and>
   q_future \<in> set (polls_question db_example) \<and>
   100 < pub_date q_future \<and>
   status_code (detail 100 db_example post_nothing (q_id q_future)) = 404"
proof -
  have h: "q_future \<in> set (polls_question db_example)" "100 < pub_date q_future"
    by (simp_all add: db_example_def q_future_def)
  show ?thesis
    using h unique_pks_db_example pks_in_range_db_example
      detail_future_question_not_found [OF unique_pks_db_example pks_in_range_db_example h,
        where request = post_nothing]
    by simp
qed

section \<open>The vote view\<close>

text \<open>
  C1 (as stated, refuted). The claim covers every stored Question. In the example store
  a Question published after the current time owns a Choice; a vote request for it that
  submits that Choice's identifier raises \<open>Http404\<close> and changes nothing.
\<close>

theorem vote_future_question_counterexample:
  "q_future \<in> set (polls_question db_example) \<and>
   c_future \<in> set (polls_choice db_example) \<and>
   c_question_id c_future = q_id q_future \<and>
   POST (post_choice (Number (c_id c_future))) ''choice'' = Some (Number (c_id c_future)) \<and>
   vote 100 150 db_example (post_choice (Number (c_id c_future))) (q_id q_future) =
     (Inl (Http404 ''Question does not exist''), db_example)"
  by (simp add: vote_def get_queryset_def Question_get_def in_db_range_def db_example_def
      post_choice_def q_past_def q_future_def c_future_def)

text \<open>
  C1 (amended). In a store whose primary keys are unique values of its integer type, for
  every stored Question \<open>q\<close> whose \<open>pub_date\<close> is at or before the current time and
  every Choice \<open>c\<close> belonging to \<open>q\<close> whose counter plus one is still within the
  store's integer range, a vote request for \<open>q\<close>'s identifier that submits \<open>c\<close>'s
  identifier answers with a redirect (status 302) to the results route for \<open>q\<close>'s
  identifier, and in the store it returns the votes counter under \<open>c\<close>'s identifier is
  one more than before. (A counter at the store's maximum is left out: there the save
  raises, see \<open>vote_counter_full_raises\<close>.)
\<close>

theorem vote_increments_and_redirects:
  assumes "unique_pks db" "pks_in_range db"
    and "q \<in> set (polls_question db)" "pub_date q \<le> now"
    and "c \<in> set (polls_choice db)" "c_question_id c = q_id q"
    and "in_db_range (votes c + 1)"
    and "POST request ''choice'' = Some (Number (c_id c))"
  shows "\<exists>db'. vote now saved_at db request (q_id q) =
                 (Inr (HttpResponseRedirect (reverse ''polls:results'' [q_id q])), db') \<and>
               status_code (fst (vote now saved_at db request (q_id q))) = 302 \<and>
               votes_of db (c_id c) = Some (votes c) \<and>
               votes_of db' (c_id c) = Some (votes c + 1) \<and>
               polls_question db' = polls_question db"
proof -
  from assms(1) have d: "distinct (map c_id (polls_choice db))"
    by (simp add: unique_pks_def)
  have rq: "in_db_range (q_id q)" using assms(2,3) by (rule pks_in_range_question)
  have rc: "in_db_range (c_id c)" using assms(2,5) by (rule pks_in_range_choice)
  have q: "Question_get (get_queryset now db) (q_id q) = Inr q"
    using assms(1-4) by (rule published_question_found)
  have "c \<in> set (question_choices db q)"
    using assms(5,6) by (simp add: set_question_choices)
  with rc distinct_question_choices [OF d]
  have c: "Choice_get (question_choices db q) (c_id c) = Inr c"
    by (rule Choice_get_found)
  let ?obj = "c\<lparr>votes := votes c + 1\<rparr>"
  have "in_db_range (c_id ?obj)" "in_db_range (c_question_id ?obj)" "in_db_range (votes ?obj)"
    using rc rq assms(6,7) by simp_all
  then obtain db' where s: "Choice_save saved_at db ?obj = Inr db'"
    using Choice_save_in_range by blast
  have v: "vote now saved_at db request (q_id q) =
             (Inr (HttpResponseRedirect (reverse ''polls:results'' [q_id q])), db')"
    using q c s assms(8) by (simp add: vote_def)
  have "c_id ?obj = c_id c" by simp
  from Choice_save_written [OF d assms(5) this s]
  obtain i where i: "i < length (polls_choice db)" "polls_choice db ! i = c"
    and db': "db' = db\<lparr>polls_choice :=
              (polls_choice db)[i := c\<lparr>votes := votes c + 1, c_updated_at := saved_at\<rparr>]\<rparr>"
    by auto
  have "List.find (\<lambda>r. c_id r = c_id (c\<lparr>votes := votes c + 1, c_updated_at := saved_at\<rparr>))
          ((polls_choice db)[i := c\<lparr>votes := votes c + 1, c_updated_at := saved_at\<rparr>]) =
        Some (c\<lparr>votes := votes c + 1, c_updated_at := saved_at\<rparr>)"
    using d i by (intro votes_of_list_update) simp_all
  then have after: "votes_of db' (c_id c) = Some (votes c + 1)"
    unfolding db' by (simp add: votes_of_def)
  have before: "votes_of db (c_id c) = Some (votes c)"
    using find_choice_Some [OF d assms(5)] by (simp add: votes_of_def)
  have "polls_question db' = polls_question db" unfolding db' by simp
  with v before after show ?thesis by simp
qed

theorem vote_increments_and_redirects_witness:
  "unique_pks db_example \<and> pks_in_range db_example \<and>
   q_past \<in> set (polls_question db_example) \<and>
   pub_date q_past \<le> 100 \<and> c_past2 \<in> set (polls_choice db_example) \<and>
   c_question_id c_past2 = q_id q_past \<and> in_db_range (votes c_past2 + 1) \<and>
   fst (vote 100 150 db_example (post_choice (Number (c_id c_past2))) (q_id q_past)) =
     Inr (HttpResponseRedirect (reverse ''polls:results'' [1])) \<and>
   votes_of db_example 2 = Some 4 \<and>
   votes_of (snd (vote 100 150 db_example (post_choice (Number (c_id c_past2))) (q_id q_past))) 2
     = Some 5"
proof -
  have h: "q_past \<in> set (polls_question db_example)" "pub_date q_past \<le> 100"
      "c_past2 \<in> set (polls_choice db_example)" "c_question_id c_past2 = q_id q_past"
      "in_db_range (votes c_past2 + 1)"
      "POST (post_choice (Number (c_id c_past2))) ''choice'' = Some (Number (c_id c_past2))"
    by (simp_all add: db_example_def q_past_def c_past2_def post_choice_def in_db_range_def)
  have e: "q_id q_past = 1" "c_id c_past2 = 2" "votes c_past2 = 4"
    by (simp_all add: q_past_def c_past2_def)
  from vote_increments_and_redirects
    [OF unique_pks_db_example pks_in_range_db_example h, of 150]
  obtain db' where
    "vote 100 150 db_example (post_choice (Number (c_id c_past2))) (q_id q_past) =
       (Inr (HttpResponseRedirect (reverse ''polls:results'' [q_id q_past])), db')"
    "votes_of db_example (c_id c_past2) = Some (votes c_past2)"
    "votes_of db' (c_id c_past2) = Some (votes c_past2 + 1)"
    by blast
  with h(1-5) unique_pks_db_example pks_in_range_db_example show ?thesis by (simp add: e)
qed

text \<open>
  C2 (as stated, refuted). The claim covers every stored Question. In the example store
  a vote request without the choice field for a Question published after the current time
  raises \<open>Http404\<close> (status 404) and does not render the detail template.
\<close>

theorem vote_invalid_future_question_counterexample:
  "q_future \<in> set (polls_question db_example) \<and>
   POST post_nothing ''choice'' = None \<and>
   vote 100 150 db_example post_nothing (q_id q_future) =
     (Inl (Http404 ''Question does not exist''), db_example) \<and>
   status_code (fst (vote 100 150 db_example post_nothing (q_id q_future))) = 404"
  by (simp add: vote_def get_queryset_def Question_get_def in_db_range_def db_example_def
      post_nothing_def q_past_def q_future_def)

text \<open>
  C2 (amended). In a store whose primary keys are unique values of its integer type, for
  every stored Question \<open>q\<close> whose \<open>pub_date\<close> is at or before the current time, a vote
  request for \<open>q\<close> that lacks the choice field, or submits an integer within the store's
  integer range that is the identifier of no Choice belonging to \<open>q\<close>, renders the detail
  template for \<open>q\<close> with the error message \<open>You didn't select a choice.\<close>, has
  status 200, and returns the store unchanged. (A text that is not a number and an
  integer outside the store's range are left out: there the lookup raises, see
  \<open>vote_not_a_number_raises\<close> and \<open>vote_choice_too_large_raises\<close>.)
\<close>

theorem vote_invalid_choice_rerenders_detail:
  assumes "unique_pks db" "pks_in_range db"
    and "q \<in> set (polls_question db)" "pub_date q \<le> now"
    and "POST request ''choice'' = None \<or>
         (\<exists>pk. POST request ''choice'' = Some (Number pk) \<and> in_db_range pk \<and>
               \<not> (\<exists>c \<in> set (polls_choice db). c_id c = pk \<and> c_question_id c = q_id q))"
  shows "vote now saved_at db request (q_id q) =
           (Inr (render ''polls/detail.html''
                   [(''question'', Instance q None),
                    (''error_message'', Text error_message_text)]), db) \<and>
         status_code (fst (vote now saved_at db request (q_id q))) = 200 \<and>
         error_message_text = ''You didn'' @ [CHR 0x27] @ ''t select a choice.''"
proof -
  have q: "Question_get (get_queryset now db) (q_id q) = Inr q"
    using assms(1-4) by (rule published_question_found)
  have v: "vote now saved_at db request (q_id q) =
           (Inr (render ''polls/detail.html''
                   [(''question'', Instance q None),
                    (''error_message'', Text error_message_text)]), db)"
    using assms(5)
  proof
    assume "POST request ''choice'' = None"
    with q show ?thesis by (simp add: vote_def)
  next
    assume "\<exists>pk. POST request ''choice'' = Some (Number pk) \<and> in_db_range pk \<and>
               \<not> (\<exists>c \<in> set (polls_choice db). c_id c = pk \<and> c_question_id c = q_id q)"
    then obtain pk where pk: "POST request ''choice'' = Some (Number pk)" "in_db_range pk"
      "\<not> (\<exists>c \<in> set (polls_choice db). c_id c = pk \<and> c_question_id c = q_id q)"
      by blast
    from pk(3) have "pk \<notin> c_id ` set (question_choices db q)"
      by (auto simp: set_question_choices)
    with pk(2) have "Choice_get (question_choices db q) pk = Inl DoesNotExist"
      by (rule Choice_get_missing)
    with q pk(1) show ?thesis by (simp add: vote_def)
  qed
  then show ?thesis by (simp add: render_def error_message_text_def)
qed

theorem vote_invalid_choice_rerenders_detail_witness:
  "unique_pks db_example \<and> pks_in_range db_example \<and>
   q_past \<in> set (polls_question db_example) \<and>
   pub_date q_past \<le> 100 \<and>
   POST (post_choice (Number 3)) ''choice'' = Some (Number 3) \<and> in_db_range 3 \<and>
   vote 100 150 db_example (post_choice (Number 3)) (q_id q_past) =
     (Inr (render ''polls/detail.html''
             [(''question'', Instance q_past None),
              (''error_message'', Text error_message_text)]), db_example) \<and>
   vote 100 150 db_example post_nothing (q_id q_past) =
     (Inr (render ''polls/detail.html''
             [(''question'', Instance q_past None),
              (''error_message'', Text error_message_text)]), db_example) \<and>
   status_code (fst (vote 100 150 db_example post_nothing (q_id q_past))) = 200"
proof -
  have h: "q_past \<in> set (polls_question db_example)" "pub_date q_past \<le> 100"
    by (simp_all add: db_example_def q_past_def)
  have p: "POST (post_choice (Number 3)) ''choice'' = Some (Number 3)" "in_db_range 3"
    by (simp_all add: post_choice_def in_db_range_def)
  have "\<not> (\<exists>c \<in> set (polls_choice db_example). c_id c = 3 \<and> c_question_id c = q_id q_past)"
    by (simp add: db_example_def q_past_def c_past_def c_past2_def c_future_def)
  with p have a: "POST (post_choice (Number 3)) ''choice'' = None \<or>
         (\<exists>pk. POST (post_choice (Number 3)) ''choice'' = Some (Number pk) \<and> in_db_range pk \<and>
               \<not> (\<exists>c \<in> set (polls_choice db_example). c_id c = pk \<and> c_question_id c = q_id q_past))"
    by blast
  have b: "POST post_nothing ''choice'' = None \<or>
         (\<exists>pk. POST post_nothing ''choice'' = Some (Number pk) \<and> in_db_range pk \<and>
               \<not> (\<exists>c \<in> set (polls_choice db_example). c_id c = pk \<and> c_question_id c = q_id q_past))"
    by (simp add: post_nothing_def)
  show ?thesis
    using h p unique_pks_db_example pks_in_range_db_example
      vote_invalid_choice_rerenders_detail
        [OF unique_pks_db_example pks_in_range_db_example h a, of 150]
      vote_invalid_choice_rerenders_detail
        [OF unique_pks_db_example pks_in_range_db_example h b, of 150]
    by (simp add: render_def)
qed

section \<open>What a vote changes\<close>

text \<open>
  C8. A call of the vote view changes at most one counter. It never changes the Question
  table or the number of Choice rows. When it answers with the redirect, the submitted
  identifier is that of one Choice row of the requested Question, that row's \<open>votes\<close> is
  one more than before, and every other Choice row is as it was. When it answers anything
  else (question not found, choice field missing, choice unknown, choice not a number, an
  integer outside the store's range) the store is returned as it was.
\<close>

theorem vote_frame:
  assumes "unique_pks db" "vote now saved_at db request question_id = (r, db')"
  shows "polls_question db' = polls_question db \<and>
         length (polls_choice db') = length (polls_choice db) \<and>
         ((\<exists>u. r = Inr (HttpResponseRedirect u)) \<longrightarrow>
            (\<exists>i<length (polls_choice db).
               POST request ''choice'' = Some (Number (c_id (polls_choice db ! i))) \<and>
               c_question_id (polls_choice db ! i) = question_id \<and>
               c_id (polls_choice db' ! i) = c_id (polls_choice db ! i) \<and>
               votes (polls_choice db' ! i) = votes (polls_choice db ! i) + 1 \<and>
               (\<forall>j<length (polls_choice db). j \<noteq> i \<longrightarrow>
                  polls_choice db' ! j = polls_choice db ! j))) \<and>
         ((\<nexists>u. r = Inr (HttpResponseRedirect u)) \<longrightarrow> db' = db)"
proof -
  consider
    (raised) e where "vote now saved_at db request question_id = (Inl e, db)"
  | (rendered) t ctx where "vote now saved_at db request question_id = (Inr (render t ctx), db)"
  | (voted) question i where "i < length (polls_choice db)"
      "Question_get (get_queryset now db) question_id = Inr question"
      "POST request ''choice'' = Some (Number (c_id (polls_choice db ! i)))"
      "c_question_id (polls_choice db ! i) = q_id question"
      "vote now saved_at db request question_id =
         (Inr (HttpResponseRedirect (reverse ''polls:results'' [q_id question])),
          db\<lparr>polls_choice := (polls_choice db)
             [i := (polls_choice db ! i)
                     \<lparr>votes := votes (polls_choice db ! i) + 1,
                      c_updated_at := saved_at\<rparr>]\<rparr>)"
    using vote_effect [OF assms(1), of now saved_at request question_id] by blast
  then show ?thesis
  proof cases
    case raised
    with assms(2) have "r = Inl e" "db' = db" by simp_all
    then show ?thesis by simp
  next
    case rendered
    with assms(2) have "r = Inr (render t ctx)" "db' = db" by simp_all
    then show ?thesis by (simp add: render_def)
  next
    case voted
    from voted(2) have qid: "q_id question = question_id"
      using Question_get_InrD by blast
    from voted(5) assms(2) have r: "r = Inr (HttpResponseRedirect (reverse ''polls:results'' [q_id question]))"
      and db': "db' = db\<lparr>polls_choice := (polls_choice db)
             [i := (polls_choice db ! i)
                     \<lparr>votes := votes (polls_choice db ! i) + 1,
                      c_updated_at := saved_at\<rparr>]\<rparr>"
      by simp_all
    have "polls_question db' = polls_question db"
      and "length (polls_choice db') = length (polls_choice db)"
      and "c_id (polls_choice db' ! i) = c_id (polls_choice db ! i)"
      and "votes (polls_choice db' ! i) = votes (polls_choice db ! i) + 1"
      and "\<forall>j<length (polls_choice db). j \<noteq> i \<longrightarrow>
                  polls_choice db' ! j = polls_choice db ! j"
      unfolding db' using voted(1) by simp_all
    with voted(1,3,4) qid r show ?thesis by blast
  qed
qed

theorem vote_frame_witness:
  "unique_pks db_example \<and>
   fst (vote 100 150 db_example (post_choice (Number 1)) 1) =
     Inr (HttpResponseRedirect (reverse ''polls:results'' [1])) \<and>
   map votes (polls_choice db_example) = [0, 4, 0] \<and>
   map votes (polls_choice (snd (vote 100 150 db_example (post_choice (Number 1)) 1))) = [1, 4, 0] \<and>
   polls_question (snd (vote 100 150 db_example (post_choice (Number 1)) 1)) =
     polls_question db_example \<and>
   length (polls_choice (snd (vote 100 150 db_example (post_choice (Number 1)) 1))) = 3 \<and>
   fst (vote 100 150 db_example post_nothing 1) =
     Inr (render ''polls/detail.html''
            [(''question'', Instance q_past None),
             (''error_message'', Text error_message_text)]) \<and>
   snd (vote 100 150 db_example post_nothing 1) = db_example"
proof -
  have ok: "vote 100 150 db_example (post_choice (Number 1)) 1 =
      (Inr (HttpResponseRedirect (reverse ''polls:results'' [1])),
       \<lparr>polls_question = [q_past, q_future],
        polls_choice = [c_past\<lparr>votes := 1, c_updated_at := 150\<rparr>, c_past2, c_future]\<rparr>)"
    by (simp add: vote_def get_queryset_def Question_get_def question_choices_def
        Choice_get_def Choice_save_def in_db_range_def db_example_def post_choice_def
        q_past_def q_future_def c_past_def c_past2_def c_future_def)
  have bad: "fst (vote 100 150 db_example post_nothing 1) =
      Inr (render ''polls/detail.html''
            [(''question'', Instance q_past None),
             (''error_message'', Text error_message_text)])"
    by (simp add: vote_def get_queryset_def Question_get_def in_db_range_def db_example_def
        post_nothing_def q_past_def q_future_def)
  have v: "map votes (polls_choice db_example) = [0, 4, 0]"
    by (simp add: db_example_def c_past_def c_past2_def c_future_def)
  have v': "map votes (polls_choice (snd (vote 100 150 db_example (post_choice (Number 1)) 1)))
              = [1, 4, 0]"
    unfolding ok by (simp add: c_past2_def c_future_def)
  have a: "vote 100 150 db_example (post_choice (Number 1)) 1 =
             (fst (vote 100 150 db_example (post_choice (Number 1)) 1),
              snd (vote 100 150 db_example (post_choice (Number 1)) 1))"
    by simp
  have b: "vote 100 150 db_example post_nothing 1 =
             (fst (vote 100 150 db_example post_nothing 1),
              snd (vote 100 150 db_example post_nothing 1))"
    by simp
  from vote_frame [OF unique_pks_db_example a]
  have "polls_question (snd (vote 100 150 db_example (post_choice (Number 1)) 1)) =
          polls_question db_example"
    and "length (polls_choice (snd (vote 100 150 db_example (post_choice (Number 1)) 1))) =
          length (polls_choice db_example)"
    by blast+
  moreover have "length (polls_choice db_example) = 3" by (simp add: db_example_def)
  moreover from vote_frame [OF unique_pks_db_example b] bad
  have "snd (vote 100 150 db_example post_nothing 1) = db_example"
    by (simp add: render_def)
  ultimately show ?thesis
    using unique_pks_db_example ok bad v v' by simp
qed

text \<open>
  C9. A Choice created without a value for \<open>votes\<close> has \<open>votes = 0\<close>, is appended to
  the table and gets an identifier no stored Choice has. A call of the vote view keeps
  every Choice row's identifier and never lowers a row's \<open>votes\<close>; when all counters are
  non-negative before the call they are non-negative after it. The other three views
  return a response only and write nothing.
\<close>

theorem votes_start_at_zero_and_never_fall:
  "votes (fst (create_choice created db label question)) = 0 \<and>
   polls_choice (snd (create_choice created db label question)) =
     polls_choice db @ [fst (create_choice created db label question)] \<and>
   c_id (fst (create_choice created db label question)) \<notin> c_id ` set (polls_choice db) \<and>
   (unique_pks db \<and> vote now saved_at db request question_id = (r, db') \<longrightarrow>
      list_all2 (\<lambda>c c'. c_id c' = c_id c \<and> votes c \<le> votes c')
        (polls_choice db) (polls_choice db') \<and>
      ((\<forall>c \<in> set (polls_choice db). 0 \<le> votes c) \<longrightarrow>
       (\<forall>c \<in> set (polls_choice db'). 0 \<le> votes c)))"
proof (intro conjI impI)
  show "votes (fst (create_choice created db label question)) = 0"
    by (simp add: create_choice_def Let_def votes_default_def)
  show "polls_choice (snd (create_choice created db label question)) =
          polls_choice db @ [fst (create_choice created db label question)]"
    by (simp add: create_choice_def Let_def)
  show "c_id (fst (create_choice created db label question)) \<notin> c_id ` set (polls_choice db)"
    using next_pk_fresh [of "map c_id (polls_choice db)"]
    by (simp add: create_choice_def Let_def)
next
  assume a: "unique_pks db \<and> vote now saved_at db request question_id = (r, db')"
  from vote_effect [OF conjunct1 [OF a], of now saved_at request question_id] a
  have cases: "db' = db \<or>
    (\<exists>i<length (polls_choice db). db' = db\<lparr>polls_choice := (polls_choice db)
             [i := (polls_choice db ! i)
                     \<lparr>votes := votes (polls_choice db ! i) + 1,
                      c_updated_at := saved_at\<rparr>]\<rparr>)"
    by auto
  show "list_all2 (\<lambda>c c'. c_id c' = c_id c \<and> votes c \<le> votes c')
          (polls_choice db) (polls_choice db')"
    using cases
  proof
    assume "db' = db"
    then show ?thesis by (simp add: list_all2_conv_all_nth)
  next
    assume "\<exists>i<length (polls_choice db). db' = db\<lparr>polls_choice := (polls_choice db)
             [i := (polls_choice db ! i)
                     \<lparr>votes := votes (polls_choice db ! i) + 1,
                      c_updated_at := saved_at\<rparr>]\<rparr>"
    then obtain i where i: "i < length (polls_choice db)"
      and db': "db' = db\<lparr>polls_choice := (polls_choice db)
             [i := (polls_choice db ! i)
                     \<lparr>votes := votes (polls_choice db ! i) + 1,
                      c_updated_at := saved_at\<rparr>]\<rparr>"
      by blast
    show ?thesis
      unfolding db' using i by (auto simp: list_all2_conv_all_nth nth_list_update)
  qed
  show "\<forall>c \<in> set (polls_choice db'). 0 \<le> votes c"
    if inv: "\<forall>c \<in> set (polls_choice db). 0 \<le> votes c"
    using cases
  proof
    assume "db' = db"
    with inv show ?thesis by simp
  next
    assume "\<exists>i<length (polls_choice db). db' = db\<lparr>polls_choice := (polls_choice db)
             [i := (polls_choice db ! i)
                     \<lparr>votes := votes (polls_choice db ! i) + 1,
                      c_updated_at := saved_at\<rparr>]\<rparr>"
    then obtain i where i: "i < length (polls_choice db)"
      and db': "db' = db\<lparr>polls_choice := (polls_choice db)
             [i := (polls_choice db ! i)
                     \<lparr>votes := votes (polls_choice db ! i) + 1,
                      c_updated_at := saved_at\<rparr>]\<rparr>"
      by blast
    let ?row = "(polls_choice db ! i)
                 \<lparr>votes := votes (polls_choice db ! i) + 1, c_updated_at := saved_at\<rparr>"
    have sub: "set (polls_choice db') \<subseteq> insert ?row (set (polls_choice db))"
      unfolding db' by (simp add: set_update_subset_insert)
    from i inv have "0 \<le> votes (polls_choice db ! i)" by simp
    then have "0 \<le> votes ?row" by simp
    with inv sub show ?thesis by blast
  qed
qed

theorem votes_start_at_zero_and_never_fall_witness:
  "votes (fst (create_choice 100 db_example ''Choice 4'' q_past)) = 0 \<and>
   c_id (fst (create_choice 100 db_example ''Choice 4'' q_past)) = 4 \<and>
   unique_pks db_example \<and>
   list_all (\<lambda>c. 0 \<le> votes c) (polls_choice db_example) \<and>
   list_all2 (\<lambda>c c'. c_id c' = c_id c \<and> votes c \<le> votes c')
     (polls_choice db_example)
     (polls_choice (snd (vote 100 150 db_example (post_choice (Number 1)) 1))) \<and>
   list_all (\<lambda>c. 0 \<le> votes c)
     (polls_choice (snd (vote 100 150 db_example (post_choice (Number 1)) 1)))"
proof -
  let ?r = "fst (vote 100 150 db_example (post_choice (Number 1)) 1)"
  let ?db' = "snd (vote 100 150 db_example (post_choice (Number 1)) 1)"
  note t = votes_start_at_zero_and_never_fall [where created = 100 and db = db_example
      and label = "''Choice 4''" and question = q_past and now = 100 and saved_at = 150
      and request = "post_choice (Number 1)" and question_id = 1 and r = "?r" and db' = "?db'"]
  have inv: "\<forall>c \<in> set (polls_choice db_example). 0 \<le> votes c"
    by (simp add: db_example_def c_past_def c_past2_def c_future_def)
  have run: "unique_pks db_example \<and>
      vote 100 150 db_example (post_choice (Number 1)) 1 = (?r, ?db')"
    using unique_pks_db_example by simp
  from t have "votes (fst (create_choice 100 db_example ''Choice 4'' q_past)) = 0"
    by blast
  moreover have "c_id (fst (create_choice 100 db_example ''Choice 4'' q_past)) = 4"
    by (simp add: create_choice_def Let_def next_pk_def db_example_def
        c_past_def c_past2_def c_future_def)
  moreover from t run have "list_all2 (\<lambda>c c'. c_id c' = c_id c \<and> votes c \<le> votes c')
      (polls_choice db_example) (polls_choice ?db')"
    by blast
  moreover from t run inv have "\<forall>c \<in> set (polls_choice ?db'). 0 \<le> votes c"
    by blast
  ultimately show ?thesis
    using unique_pks_db_example inv by (simp add: list_all_iff)
qed

end
